theory Spec2Isabelle
  imports Main "HOL-Library.Sublist" "HOL-Library.Word"
begin

section \<open>JavaScript values used by the component\<close>

text \<open>
  A string is a list of UTF-16 code units. The model has the strings whose code units are
  all below U+0100: a \<^typ>\<open>char\<close> is such a code unit, \<open>CHR 0xA0\<close> the no-break space and
  \<open>CHR 0xC9\<close> the capital E with acute. On these strings \<open>trim\<close> and \<open>toLowerCase\<close> are the
  ones of ECMAScript.

  \<open>String.prototype.trim\<close> strips white space and line terminators from both ends. Below
  U+0100 these are tab, line feed, vertical tab, form feed, carriage return, space and the
  no-break space; the others (U+1680, U+2000 to U+200A, U+2028, U+2029, U+202F, U+205F,
  U+3000 and U+FEFF) are not code units of the model.
\<close>

definition js_space :: "char \<Rightarrow> bool" where
  "js_space ch =
     (ch \<in> set [CHR 0x09, CHR 0x0A, CHR 0x0B, CHR 0x0C, CHR 0x0D, CHR 0x20, CHR 0xA0])"

definition trim :: "string \<Rightarrow> string" where
  "trim s = rev (dropWhile js_space (rev (dropWhile js_space s)))"

text \<open>
  \<open>String.prototype.toLowerCase\<close>. Below U+0100 the capital letters are \<open>A\<close> to \<open>Z\<close> (U+0041 to
  U+005A) and the accented capitals U+00C0 to U+00DE without the multiplication sign
  U+00D7; each has its small letter 32 code units further on, and no other code unit
  changes.
\<close>

definition lower_char :: "char \<Rightarrow> char" where
  "lower_char ch =
     (let n = (of_char ch :: nat)
      in if (65 \<le> n \<and> n \<le> 90) \<or> (192 \<le> n \<and> n \<le> 214) \<or> (216 \<le> n \<and> n \<le> 222)
         then char_of (n + 32) else ch)"

definition toLowerCase :: "string \<Rightarrow> string" where
  "toLowerCase s = map lower_char s"

text \<open>\<open>Array.prototype.join\<close> on an array of strings.\<close>

fun join :: "string \<Rightarrow> string list \<Rightarrow> string" where
  "join sep [] = []"
| "join sep [x] = x"
| "join sep (x # y # ys) = x @ sep @ join sep (y # ys)"

text \<open>
  A count, as a template literal prints it: its decimal digits. A number prints so when it
  is an integer that it holds exactly and is below \<open>1e21\<close>; the counts printed here are
  lengths of arrays, sums of such, and the result cap. \<open>decimal_value\<close> reads digits back.
\<close>

definition digit_char :: "nat \<Rightarrow> char" where
  "digit_char d = ''0123456789'' ! d"

fun show_nat :: "nat \<Rightarrow> string" where
  "show_nat n =
     (if n < 10 then [digit_char n] else show_nat (n div 10) @ [digit_char (n mod 10)])"

declare show_nat.simps [simp del]

definition digit_value :: "char \<Rightarrow> nat" where
  "digit_value ch = of_char ch - 48"

definition decimal_value :: "string \<Rightarrow> nat" where
  "decimal_value ds = foldl (\<lambda>n ch. 10 * n + digit_value ch) 0 ds"

text \<open>
  \<open>Array.prototype.slice(start, end)\<close> with integer arguments: a negative index counts from
  the end, both indices are clamped to the array, and an empty range gives the empty array.
\<close>

definition slice_index :: "nat \<Rightarrow> int \<Rightarrow> nat" where
  "slice_index len k = (if k < 0 then nat (max (int len + k) 0) else min (nat k) len)"

definition slice :: "'a list \<Rightarrow> int \<Rightarrow> int \<Rightarrow> 'a list" where
  "slice xs from until =
     (let k = slice_index (length xs) from; e = slice_index (length xs) until
      in take (e - k) (drop k xs))"

text \<open>
  A \<open>Set<string>\<close> iterates in insertion order, so it is a list without repetitions:
  \<open>add\<close> appends an absent element, \<open>delete\<close> removes it, the constructor adds the elements
  of its argument from left to right.
\<close>

definition set_add :: "'a \<Rightarrow> 'a list \<Rightarrow> 'a list" where
  "set_add x s = (if x \<in> set s then s else s @ [x])"

definition set_delete :: "'a \<Rightarrow> 'a list \<Rightarrow> 'a list" where
  "set_delete x s = removeAll x s"

definition new_Set :: "'a list \<Rightarrow> 'a list" where
  "new_Set xs = foldl (\<lambda>s x. set_add x s) [] xs"

text \<open>
  What a \<open>catch\<close> clause receives: an \<open>Error\<close> object with its message, or any other value.
\<close>

datatype thrown = ErrorObj string | NonError

definition message_or :: "string \<Rightarrow> thrown \<Rightarrow> string" where
  "message_or dflt e = (case e of ErrorObj m \<Rightarrow> m | NonError \<Rightarrow> dflt)"

section \<open>Props, state, client and observable events\<close>

record SearchResult =
  doc_id :: string
  doc_type :: string
  doc_title :: "string option"
  doc_name :: "string option"

text \<open>
  The props that the code reads. The two callbacks are optional (\<open>onComplete?.(...)\<close>):
  the flags say whether the caller supplied them, and a callback that is called returns
  normally. \<open>batchSize\<close> is a number that is an integer. \<open>maxResults\<close> is a count of
  documents: a non-negative integer in the range that a number holds exactly (below
  9007199254740992), as a word of 53 bits. The defaults (10, \<open>false\<close>, 100) are the caller's to fill in.
\<close>

record props =
  documentTypes :: "string list"
  onComplete_given :: bool
  onError_given :: bool
  batchSize :: int
  dryRun :: bool
  maxResults :: "53 word"

record state =
  searchQuery :: string
  selectedType :: string
  searchResults :: "SearchResult list"
  selectedItems :: "string list"
  isSearching :: bool
  isDeleting :: bool
  showConfirmDialog :: bool
  availableTypes :: "string list"
  customGroqQuery :: string
  useCustomQuery :: bool
  message :: string

definition initial_state :: state where
  "initial_state =
     \<lparr>searchQuery = '''', selectedType = ''all'', searchResults = [], selectedItems = [],
      isSearching = False, isDeleting = False, showConfirmDialog = False,
      availableTypes = [], customGroqQuery = '''', useCustomQuery = False, message = ''''\<rparr>"

text \<open>
  What \<open>client.fetch\<close> resolves to: an array of documents, \<open>null\<close> or \<open>undefined\<close> (with the
  message of the \<open>TypeError\<close> that reading \<open>.length\<close> of it raises in the engine at hand), or
  any other value (with the text that \<open>${results.length}\<close> prints for it).
\<close>

datatype fetched = JsArray "SearchResult list" | Nullish string | NonArray string

text \<open>
  The document store behind \<open>client\<close> is a parameter: \<open>'st\<close> is its state, and each call
  returns the outcome with the next state.
  \<^item> \<open>fetch\<close>: \<open>await client.fetch(query)\<close>, rejected (\<open>Inl\<close>) or resolved (\<open>Inr\<close>);
  \<^item> \<open>transaction\<close>: \<open>client.transaction()\<close> followed by \<open>transaction.delete(id)\<close> for
    each id of the batch, which build the request locally; \<open>Some e\<close> when one of these calls
    throws \<open>e\<close> (outside the inner \<open>try\<close>);
  \<^item> \<open>commit\<close>: \<open>await transaction.commit()\<close> for that batch, \<open>None\<close> when it resolves and
    \<open>Some e\<close> when it rejects with \<open>e\<close>.
\<close>

record 'st client =
  fetch :: "'st \<Rightarrow> string \<Rightarrow> (thrown + fetched) \<times> 'st"
  transaction :: "'st \<Rightarrow> string list \<Rightarrow> thrown option"
  commit :: "'st \<Rightarrow> string list \<Rightarrow> thrown option \<times> 'st"

text \<open>The calls that leave the component, in the order they are made.\<close>

datatype event =
    LogQuery string
  | Fetch string
  | LogSearchError thrown
  | LogDryRun "string list"
  | Commit "string list"
  | OnComplete nat "string list"
  | OnError string

section \<open>buildQuery\<close>

definition type_eq_condition :: "string \<Rightarrow> string" where
  \<open>type_eq_condition t = ''_type == "'' @ t @ ''"''\<close>

definition type_in_condition :: "string list \<Rightarrow> string" where
  \<open>type_in_condition ts =
     ''_type in ['' @ join '', '' (map (\<lambda>t. ''"'' @ t @ ''"'') ts) @ '']''\<close>

definition text_condition :: "string \<Rightarrow> string" where
  \<open>text_condition searchTerm =
     ''(\<newline>        lower(title) match "*'' @ searchTerm @ ''*" ||\<newline>        lower(name) match "*''
     @ searchTerm @ ''*" ||\<newline>        lower(slug.current) match "*'' @ searchTerm
     @ ''*" ||\<newline>        lower(string::split(string(_id), ".")[1]) match "*'' @ searchTerm
     @ ''*"\<newline>      )''\<close>

text \<open>The array \<open>conditions\<close> when \<open>buildQuery\<close> has filled it.\<close>

definition conditions :: "state \<Rightarrow> string list" where
  "conditions s =
     (if selectedType s \<noteq> ''all'' then [type_eq_condition (selectedType s)]
      else if length (availableTypes s) > 0 then [type_in_condition (availableTypes s)]
      else [])
     @ (if trim (searchQuery s) \<noteq> [] then [text_condition (toLowerCase (trim (searchQuery s)))]
        else [])"

definition projection :: "53 word \<Rightarrow> string" where
  "projection cap =
     ''][0...'' @ show_nat (unat cap) @ ''] {\<newline>      _id,\<newline>      _type,\<newline>      title,\<newline>      name,\<newline>      slug,\<newline>      _createdAt,\<newline>      _updatedAt\<newline>    }''"

definition buildQuery :: "props \<Rightarrow> state \<Rightarrow> string" where
  "buildQuery P s =
     (if useCustomQuery s \<and> trim (customGroqQuery s) \<noteq> [] then customGroqQuery s
      else ''*[''
           @ (if length (conditions s) > 0 then join '' && '' (conditions s) else [])
           @ projection (maxResults P))"

section \<open>handleSearch\<close>

text \<open>The \<open>catch\<close> and \<open>finally\<close> blocks of \<open>handleSearch\<close>.\<close>

definition search_failed ::
  "props \<Rightarrow> state \<Rightarrow> 'st \<Rightarrow> event list \<Rightarrow> thrown \<Rightarrow> state \<times> 'st \<times> event list" where
  "search_failed P s w tr e =
     (let errorMessage = message_or ''Search failed'' e
      in (s\<lparr>message := ''Search error: '' @ errorMessage, isSearching := False\<rparr>,
          w,
          tr @ [LogSearchError e] @ (if onError_given P then [OnError errorMessage] else [])))"

text \<open>
  The rest of the \<open>try\<close> block once \<open>client.fetch\<close> has resolved: the result list is
  replaced and the selection reset before \<open>results.length\<close> is read, and that read throws
  when \<open>results\<close> is \<open>null\<close> or \<open>undefined\<close>.
\<close>

definition search_resolved ::
  "props \<Rightarrow> state \<Rightarrow> 'st \<Rightarrow> event list \<Rightarrow> fetched \<Rightarrow> state \<times> 'st \<times> event list" where
  "search_resolved P s1 w tr results =
     (let s2 = s1\<lparr>searchResults := (case results of JsArray docs \<Rightarrow> docs | _ \<Rightarrow> []),
                  selectedItems := new_Set []\<rparr>
      in case results of
           JsArray docs \<Rightarrow>
             (s2\<lparr>message := ''Found '' @ show_nat (length docs) @ '' documents'',
                 isSearching := False\<rparr>, w, tr)
         | NonArray len \<Rightarrow>
             (s2\<lparr>message := ''Found '' @ len @ '' documents'', isSearching := False\<rparr>, w, tr)
         | Nullish type_error \<Rightarrow> search_failed P s2 w tr (ErrorObj type_error))"

definition handleSearch ::
  "props \<Rightarrow> 'st client \<Rightarrow> state \<Rightarrow> 'st \<Rightarrow> state \<times> 'st \<times> event list" where
  "handleSearch P c s w =
     (if trim (searchQuery s) = [] \<and> \<not> useCustomQuery s
      then (s\<lparr>message := ''Please enter a search term or use custom query''\<rparr>, w, [])
      else
        let s1 = s\<lparr>isSearching := True, message := ''''\<rparr>;
            query = buildQuery P s;
            tr = [LogQuery query, Fetch query];
            (outcome, w') = fetch c w query
        in case outcome of
             Inl e \<Rightarrow> search_failed P s1 w' tr e
           | Inr results \<Rightarrow> search_resolved P s1 w' tr results)"

section \<open>Selection\<close>

definition toggleItemSelection :: "string \<Rightarrow> state \<Rightarrow> state" where
  "toggleItemSelection ident s =
     (let newSelected = new_Set (selectedItems s)
      in s\<lparr>selectedItems :=
             (if ident \<in> set newSelected then set_delete ident newSelected
              else set_add ident newSelected)\<rparr>)"

definition selectAll :: "state \<Rightarrow> state" where
  "selectAll s = s\<lparr>selectedItems := new_Set (map doc_id (searchResults s))\<rparr>"

definition clearSelection :: "state \<Rightarrow> state" where
  "clearSelection s = s\<lparr>selectedItems := new_Set []\<rparr>"

section \<open>handleDelete\<close>

text \<open>
  The local variables of one run of \<open>handleDelete\<close> that the loop changes, with the status
  message set inside the loop, the store and the calls made so far.
\<close>

record 'st run =
  deletedCount :: nat
  errors :: "string list"
  progress :: string
  store :: 'st
  trace :: "event list"

text \<open>
  \<open>${i / batchSize + 1}\<close>. The loop only reaches it with \<open>i\<close> a multiple of \<open>batchSize\<close>
  that is below the length of the array, where the quotient is an integer of at most that
  length, printed in decimal with its sign; \<open>0 / 0\<close> is \<open>NaN\<close>.
\<close>

definition batch_number :: "int \<Rightarrow> int \<Rightarrow> string" where
  "batch_number i B =
     (if B = 0 then ''NaN''
      else let q = i div B + 1
           in if q < 0 then ''-'' @ show_nat (nat (- q)) else show_nat (nat q))"

text \<open>
  The body of the \<open>for\<close> loop at index \<open>i\<close>: \<open>Inr\<close> the updated locals, or \<open>Inl\<close> what was
  thrown outside the inner \<open>try\<close>, which ends the loop.
\<close>

definition process_batch ::
  "props \<Rightarrow> 'st client \<Rightarrow> string list \<Rightarrow> int \<Rightarrow> 'st run \<Rightarrow> (thrown \<times> 'st run) + 'st run" where
  "process_batch P c itemsToDelete i r =
     (let batch = slice itemsToDelete i (i + batchSize P)
      in if dryRun P
         then Inr (r\<lparr>trace := trace r @ [LogDryRun batch],
                     deletedCount := deletedCount r + length batch\<rparr>)
         else (case transaction c (store r) batch of
                 Some e \<Rightarrow> Inl (e, r)
               | None \<Rightarrow>
                   (let (outcome, w') = commit c (store r) batch;
                        r' = r\<lparr>store := w', trace := trace r @ [Commit batch]\<rparr>
                    in (case outcome of
                          None \<Rightarrow>
                            Inr (r'\<lparr>deletedCount := deletedCount r + length batch,
                                     progress := ''Deleted ''
                                       @ show_nat (deletedCount r + length batch) @ ''/''
                                       @ show_nat (length itemsToDelete) @ '' items...''\<rparr>)
                        | Some e \<Rightarrow>
                            Inr (r'\<lparr>errors := errors r
                                       @ [''Batch '' @ batch_number i (batchSize P) @ '': ''
                                          @ message_or ''Unknown error'' e]\<rparr>)))))"

text \<open>
  \<open>for (let i = 0; i < itemsToDelete.length; i += batchSize)\<close>, from index \<open>i\<close> on. The loop
  does not end when \<open>batchSize\<close> is not positive: the result is then \<open>None\<close>.
\<close>

partial_function (option) process_batches ::
  "props \<Rightarrow> 'st client \<Rightarrow> string list \<Rightarrow> int \<Rightarrow> 'st run \<Rightarrow> ((thrown \<times> 'st run) + 'st run) option"
where
  "process_batches P c itemsToDelete i r =
     (if i < int (length itemsToDelete)
      then (case process_batch P c itemsToDelete i r of
              Inl x \<Rightarrow> Some (Inl x)
            | Inr r' \<Rightarrow> process_batches P c itemsToDelete (i + batchSize P) r')
      else Some (Inr r))"

declare process_batches.simps [code]

text \<open>The locals at loop entry: \<open>errors = []\<close>, \<open>deletedCount = 0\<close>, nothing called yet.\<close>

definition start_run :: "'st \<Rightarrow> 'st run" where
  "start_run w = \<lparr>deletedCount = 0, errors = [], progress = '''', store = w, trace = []\<rparr>"

definition finalMessage :: "props \<Rightarrow> 'st run \<Rightarrow> string" where
  "finalMessage P r =
     (if dryRun P then ''DRY RUN: Would delete '' @ show_nat (deletedCount r) @ '' items''
      else ''Successfully deleted '' @ show_nat (deletedCount r) @ '' items''
           @ (if length (errors r) > 0
              then '' ('' @ show_nat (length (errors r)) @ '' errors)'' else []))"

text \<open>
  After the loop (\<open>// Update results\<close>) and the \<open>finally\<close> block. The result list and the
  selection that the handler reads are those of the state it was called in; \<open>s\<close> has them
  unchanged.
\<close>

definition delete_finished :: "props \<Rightarrow> state \<Rightarrow> 'st run \<Rightarrow> state \<times> 'st \<times> event list" where
  "delete_finished P s r =
     (let remainingResults =
            filter (\<lambda>item. \<not> doc_id item \<in> set (selectedItems s)) (searchResults s)
      in (s\<lparr>searchResults := remainingResults, selectedItems := new_Set [],
             message := finalMessage P r, isDeleting := False, showConfirmDialog := False\<rparr>,
          store r,
          trace r @ (if onComplete_given P then [OnComplete (deletedCount r) (errors r)] else [])))"

text \<open>The outer \<open>catch\<close> and the \<open>finally\<close> block.\<close>

definition delete_failed :: "props \<Rightarrow> state \<Rightarrow> 'st run \<Rightarrow> thrown \<Rightarrow> state \<times> 'st \<times> event list" where
  "delete_failed P s r e =
     (let errorMessage = message_or ''Delete operation failed'' e
      in (s\<lparr>message := ''Delete error: '' @ errorMessage, isDeleting := False,
             showConfirmDialog := False\<rparr>,
          store r,
          trace r @ (if onError_given P then [OnError errorMessage] else [])))"

text \<open>
  The handler gives the next state, the store and the calls it made, or \<open>None\<close> when its
  loop never ends.
\<close>

definition handleDelete ::
  "props \<Rightarrow> 'st client \<Rightarrow> state \<Rightarrow> 'st \<Rightarrow> (state \<times> 'st \<times> event list) option" where
  "handleDelete P c s w =
     (if length (selectedItems s) = 0 then Some (s, w, [])
      else
        let s1 = s\<lparr>isDeleting := True, message := ''''\<rparr>;
            itemsToDelete = selectedItems s
        in map_option
             (\<lambda>ended. case ended of
                        Inr r \<Rightarrow> delete_finished P s1 r
                      | Inl (e, r) \<Rightarrow> delete_failed P s1 r e)
             (process_batches P c itemsToDelete 0 (start_run w)))"

section \<open>The handlers as the rendered form calls them\<close>

text \<open>
  One checkbox is rendered per entry of \<open>searchResults\<close> and calls \<open>toggleItemSelection\<close>
  with that entry's \<open>_id\<close>, so \<open>Toggle\<close> is offered for those identifiers only. Every
  other handler is taken to be callable in every state.
\<close>

datatype action =
    SetSearchQuery string
  | SetSelectedType string
  | SetCustomGroqQuery string
  | SetUseCustomQuery bool
  | SetAvailableTypes "string list"
  | SetShowConfirmDialog bool
  | Search
  | Toggle string
  | SelectAll
  | ClearSelection
  | Delete

fun ui_step :: "props \<Rightarrow> 'st client \<Rightarrow> action \<Rightarrow> state \<times> 'st \<Rightarrow> (state \<times> 'st) option" where
  "ui_step P c (SetSearchQuery q) (s, w) = Some (s\<lparr>searchQuery := q\<rparr>, w)"
| "ui_step P c (SetSelectedType t) (s, w) = Some (s\<lparr>selectedType := t\<rparr>, w)"
| "ui_step P c (SetCustomGroqQuery q) (s, w) = Some (s\<lparr>customGroqQuery := q\<rparr>, w)"
| "ui_step P c (SetUseCustomQuery b) (s, w) = Some (s\<lparr>useCustomQuery := b\<rparr>, w)"
| "ui_step P c (SetAvailableTypes ts) (s, w) = Some (s\<lparr>availableTypes := ts\<rparr>, w)"
| "ui_step P c (SetShowConfirmDialog b) (s, w) = Some (s\<lparr>showConfirmDialog := b\<rparr>, w)"
| "ui_step P c Search (s, w) = (case handleSearch P c s w of (s', w', tr) \<Rightarrow> Some (s', w'))"
| "ui_step P c (Toggle ident) (s, w) =
     (if ident \<in> set (map doc_id (searchResults s)) then Some (toggleItemSelection ident s, w)
      else None)"
| "ui_step P c SelectAll (s, w) = Some (selectAll s, w)"
| "ui_step P c ClearSelection (s, w) = Some (clearSelection s, w)"
| "ui_step P c Delete (s, w) = map_option (\<lambda>(s', w', tr). (s', w')) (handleDelete P c s w)"

fun ui_run :: "props \<Rightarrow> 'st client \<Rightarrow> action list \<Rightarrow> state \<times> 'st \<Rightarrow> (state \<times> 'st) option" where
  "ui_run P c [] x = Some x"
| "ui_run P c (a # as) x = Option.bind (ui_step P c a x) (ui_run P c as)"

section \<open>The partition and the accounting as the specification words them\<close>

text \<open>
  Consecutive chunks of at most \<open>n\<close> elements. This is the reference that the loop of
  \<open>handleDelete\<close> is compared with; the loop itself is \<open>process_batches\<close>.
\<close>

fun spec_chunks :: "nat \<Rightarrow> 'a list \<Rightarrow> 'a list list" where
  "spec_chunks n xs = (if n = 0 \<or> xs = [] then [] else take n xs # spec_chunks n (drop n xs))"

declare spec_chunks.simps [simp del]

text \<open>\<open>ceil(N / B)\<close> on natural numbers.\<close>

definition ceil_div :: "nat \<Rightarrow> nat \<Rightarrow> nat" where
  "ceil_div N B = (N + B - 1) div B"

text \<open>
  What the store answers when the chunks are committed one after the other from store
  \<open>w\<close> on, and the store this leaves.
\<close>

fun commit_outcomes :: "'st client \<Rightarrow> 'st \<Rightarrow> string list list \<Rightarrow> thrown option list" where
  "commit_outcomes c w [] = []"
| "commit_outcomes c w (b # bs) = fst (commit c w b) # commit_outcomes c (snd (commit c w b)) bs"

fun store_after :: "'st client \<Rightarrow> 'st \<Rightarrow> string list list \<Rightarrow> 'st" where
  "store_after c w [] = w"
| "store_after c w (b # bs) = store_after c (snd (commit c w b)) bs"

text \<open>
  The accounting of a live run: a chunk counts its size when its transaction succeeded and
  zero when it failed; a failed chunk leaves one message that carries its ordinal position
  (counted from \<open>k\<close>), a successful one none.
\<close>

fun spec_deleted :: "string list list \<Rightarrow> thrown option list \<Rightarrow> nat" where
  "spec_deleted (b # bs) (out # outs) =
     (case out of None \<Rightarrow> length b | Some e \<Rightarrow> 0) + spec_deleted bs outs"
| "spec_deleted bs outs = 0"

fun spec_errors :: "nat \<Rightarrow> thrown option list \<Rightarrow> string list" where
  "spec_errors k [] = []"
| "spec_errors k (out # outs) =
     (case out of
        None \<Rightarrow> []
      | Some e \<Rightarrow> [''Batch '' @ show_nat k @ '': '' @ message_or ''Unknown error'' e])
     @ spec_errors (Suc k) outs"

text \<open>The batches that a run handed to \<open>console.log\<close> (preview) or committed (live).\<close>

fun batches_of :: "event list \<Rightarrow> string list list" where
  "batches_of [] = []"
| "batches_of (LogDryRun b # tr) = b # batches_of tr"
| "batches_of (Commit b # tr) = b # batches_of tr"
| "batches_of (e # tr) = batches_of tr"

text \<open>The transactions that a run committed, and the callbacks it invoked.\<close>

definition commits_of :: "event list \<Rightarrow> string list list" where
  "commits_of tr = concat (map (\<lambda>e. case e of Commit b \<Rightarrow> [b] | _ \<Rightarrow> []) tr)"

definition callbacks_of :: "event list \<Rightarrow> event list" where
  "callbacks_of tr =
     filter (\<lambda>e. case e of OnComplete d errs \<Rightarrow> True | OnError m \<Rightarrow> True | _ \<Rightarrow> False) tr"

text \<open>The invariant of the selection: every selected identifier is the \<open>_id\<close> of a result.\<close>

definition selection_within_results :: "state \<Rightarrow> bool" where
  "selection_within_results s = (set (selectedItems s) \<subseteq> set (map doc_id (searchResults s)))"

section \<open>Concrete inputs\<close>

text \<open>
  A store whose state counts the commits made: every fetch resolves to two documents,
  building a transaction never throws, and the second commit is rejected.
\<close>

definition demo_doc :: "string \<Rightarrow> SearchResult" where
  "demo_doc ident = \<lparr>doc_id = ident, doc_type = ''post'', doc_title = None, doc_name = None\<rparr>"

definition demo_client :: "nat client" where
  "demo_client =
     \<lparr>fetch = (\<lambda>w q. (Inr (JsArray [demo_doc ''a'', demo_doc ''b'']), w)),
      transaction = (\<lambda>w b. None),
      commit = (\<lambda>w b. (if w = 1 then Some (ErrorObj ''boom'') else None, Suc w))\<rparr>"

text \<open>A store that cannot be reached: every fetch and every commit is rejected.\<close>

definition offline_client :: "nat client" where
  "offline_client =
     \<lparr>fetch = (\<lambda>w q. (Inl (ErrorObj ''network down''), w)),
      transaction = (\<lambda>w b. None),
      commit = (\<lambda>w b. (Some NonError, w))\<rparr>"

definition demo_props :: props where
  "demo_props =
     \<lparr>documentTypes = [], onComplete_given = True, onError_given = True, batchSize = 2,
      dryRun = False, maxResults = 100\<rparr>"

definition preview_props :: props where
  "preview_props = demo_props\<lparr>dryRun := True\<rparr>"

text \<open>Six results, of which five are selected.\<close>

definition demo_state :: state where
  "demo_state =
     initial_state
       \<lparr>searchQuery := ''  Acme '',
        searchResults := map demo_doc [''a'', ''b'', ''c'', ''d'', ''e'', ''f''],
        selectedItems := [''a'', ''b'', ''c'', ''d'', ''e'']\<rparr>"

text \<open>The same state with a hand-written query switched on.\<close>

definition custom_state :: state where
  \<open>custom_state =
     demo_state\<lparr>useCustomQuery := True, customGroqQuery := ''*[_type == "post"]''\<rparr>\<close>

text \<open>
  A session from the initial state: type a term, search, select all, untick the first
  result; and the state it ends in.
\<close>

definition demo_session :: "action list" where
  "demo_session = [SetSearchQuery ''acme'', Search, SelectAll, Toggle ''a'']"

definition demo_found :: state where
  "demo_found =
     initial_state\<lparr>searchQuery := ''acme'', searchResults := [demo_doc ''a'', demo_doc ''b''],
                   selectedItems := [''b''], message := ''Found 2 documents''\<rparr>"

text \<open>
  States for the query builder: a term of white space only, with a no-break space; a
  specific type selected; type \<open>all\<close> with known types; custom-query mode with a custom
  text that is one no-break space; a term with a no-break space in front and an accented
  capital; and a term that closes the string it is put in.
\<close>

definition blank_state :: state where
  "blank_state = demo_state\<lparr>searchQuery := [CHR 0x20, CHR 0xA0, CHR 0x09]\<rparr>"

definition post_state :: state where
  "post_state = demo_state\<lparr>selectedType := ''post'', availableTypes := [''post'', ''page'']\<rparr>"

definition known_state :: state where
  "known_state = demo_state\<lparr>availableTypes := [''post'', ''page'']\<rparr>"

definition blank_custom_state :: state where
  "blank_custom_state = demo_state\<lparr>useCustomQuery := True, customGroqQuery := [CHR 0xA0]\<rparr>"

definition accent_state :: state where
  "accent_state = demo_state\<lparr>searchQuery := CHR 0xA0 # CHR 0xC9 # ''COLE ''\<rparr>"

definition inject_state :: state where
  \<open>inject_state =
     post_state\<lparr>searchQuery := ''x*" || _type in ["post", "page"] || lower(title) match "*x''\<rparr>\<close>

section \<open>Strings and numbers\<close>

lemma digit_value_digit_char: "d < 10 \<Longrightarrow> digit_value (digit_char d) = d"
proof -
  assume "d < 10"
  then have "d \<in> {0, 1, 2, 3, 4, 5, 6, 7, 8, 9}" by auto
  then show ?thesis by (auto simp add: digit_char_def digit_value_def)
qed

lemma decimal_value_snoc: "decimal_value (ds @ [ch]) = 10 * decimal_value ds + digit_value ch"
  by (simp add: decimal_value_def)

lemma decimal_value_show_nat: "decimal_value (show_nat n) = n"
proof (induction n rule: show_nat.induct)
  case (1 n)
  show ?case
  proof (cases "n < 10")
    case True
    then show ?thesis
      by (subst show_nat.simps) (simp add: decimal_value_def digit_value_digit_char)
  next
    case False
    then show ?thesis
      using 1 by (subst show_nat.simps) (simp add: decimal_value_snoc digit_value_digit_char)
  qed
qed

lemma trim_no_break_space: "trim [CHR 0x20, CHR 0xA0, CHR 0x09] = []"
  by (simp add: trim_def js_space_def)

lemma toLowerCase_accented: "toLowerCase [CHR 0xC9, CHR 0xD7, CHR 0xDE, CHR 0xDF] = [CHR 0xE9, CHR 0xD7, CHR 0xFE, CHR 0xDF]"
  by code_simp

lemma trim_blank_custom_text: "trim [CHR 0xA0] = []"
  by (simp add: trim_def js_space_def)

section \<open>Slices and chunks\<close>

lemma slice_take_drop:
  assumes "0 \<le> i" "1 \<le> B"
  shows "slice xs i (i + B) = take (nat B) (drop (nat i) xs)"
proof -
  let ?k = "min (nat i) (length xs)" and ?e = "min (nat (i + B)) (length xs)"
  have idx: "slice_index (length xs) i = ?k" "slice_index (length xs) (i + B) = ?e"
    using assms by (simp_all add: slice_index_def)
  have d: "drop ?k xs = drop (nat i) xs"
    by (cases "nat i \<le> length xs") (simp_all add: min_def)
  have "?e - ?k = min (nat B) (length xs - nat i)"
    using assms by (simp add: nat_add_distrib) arith
  then have "take (?e - ?k) (drop (nat i) xs) = take (nat B) (drop (nat i) xs)"
    by (simp add: min_def)
  then show ?thesis
    by (simp add: slice_def idx d)
qed

lemma spec_chunks_Nil: "spec_chunks n [] = []"
  by (simp add: spec_chunks.simps)

lemma spec_chunks_step:
  "0 < n \<Longrightarrow> xs \<noteq> [] \<Longrightarrow> spec_chunks n xs = take n xs # spec_chunks n (drop n xs)"
  by (subst spec_chunks.simps) simp

lemma concat_spec_chunks: "0 < n \<Longrightarrow> concat (spec_chunks n xs) = xs"
proof (induction n xs rule: spec_chunks.induct)
  case (1 n xs)
  show ?case
  proof (cases "xs = []")
    case True
    then show ?thesis by (simp add: spec_chunks_Nil)
  next
    case False
    with 1 show ?thesis by (simp add: spec_chunks_step)
  qed
qed

lemma length_spec_chunks: "0 < n \<Longrightarrow> length (spec_chunks n xs) = ceil_div (length xs) n"
proof (induction n xs rule: spec_chunks.induct)
  case (1 n xs)
  show ?case
  proof (cases "xs = []")
    case True
    then show ?thesis using 1(2) by (simp add: spec_chunks_Nil ceil_div_def)
  next
    case False
    then have len: "Suc 0 \<le> length xs" by (cases xs) simp_all
    have ih: "length (spec_chunks n (drop n xs)) = ceil_div (length xs - n) n"
      using 1 False by simp
    show ?thesis
    proof (cases "length xs \<le> n")
      case True
      moreover have "n * 1 \<le> length xs + n - 1" "length xs + n - 1 < n * Suc 1"
        using len True by simp_all
      ultimately have "ceil_div (length xs) n = 1"
        unfolding ceil_div_def by (intro div_nat_eqI)
      then show ?thesis using ih True False 1(2) by (simp add: spec_chunks_step ceil_div_def)
    next
      case F: False
      then have "length xs + n - 1 = (length xs - n + n - 1) + n" by simp
      then have "ceil_div (length xs) n = Suc (ceil_div (length xs - n) n)"
        using 1(2) unfolding ceil_div_def by (metis div_add_self2 less_numeral_extra(3) Suc_eq_plus1)
      then show ?thesis using ih False 1(2) by (simp add: spec_chunks_step)
    qed
  qed
qed

lemma size_spec_chunks: "b \<in> set (spec_chunks n xs) \<Longrightarrow> length b \<le> n \<and> b \<noteq> []"
proof (induction n xs rule: spec_chunks.induct)
  case (1 n xs)
  show ?case
  proof (cases "n = 0 \<or> xs = []")
    case True
    then show ?thesis using 1(2) by (subst (asm) spec_chunks.simps) simp
  next
    case False
    then show ?thesis using 1 by (subst (asm) (2) spec_chunks.simps) auto
  qed
qed

section \<open>The loop of handleDelete\<close>

lemma process_batch_dry:
  assumes "dryRun P" "0 \<le> i" "1 \<le> batchSize P"
  shows "process_batch P c items i r =
           Inr (r\<lparr>trace := trace r @ [LogDryRun (take (nat (batchSize P)) (drop (nat i) items))],
                  deletedCount := deletedCount r + length (take (nat (batchSize P)) (drop (nat i) items))\<rparr>)"
  using assms by (simp add: process_batch_def slice_take_drop Let_def)

lemma process_batches_dry:
  assumes "dryRun P" "1 \<le> batchSize P" "0 \<le> i"
  shows "process_batches P c items i r =
           Some (Inr (r\<lparr>trace := trace r
                          @ map LogDryRun (spec_chunks (nat (batchSize P)) (drop (nat i) items)),
                        deletedCount := deletedCount r + (length items - nat i)\<rparr>))"
  using assms(3)
proof (induction "length items - nat i" arbitrary: i r rule: less_induct)
  case less
  let ?B = "batchSize P"
  show ?case
  proof (cases "i < int (length items)")
    case False
    then have "drop (nat i) items = []" using less.prems by simp
    moreover have "length items - nat i = 0" using False less.prems by simp
    ultimately show ?thesis using False
      by (subst process_batches.simps) (simp add: spec_chunks_Nil)
  next
    case True
    let ?b = "take (nat ?B) (drop (nat i) items)"
    let ?r = "r\<lparr>trace := trace r @ [LogDryRun ?b], deletedCount := deletedCount r + length ?b\<rparr>"
    have ne: "drop (nat i) items \<noteq> []" using True less.prems by simp
    have smaller: "length items - nat (i + ?B) < length items - nat i"
      using True less.prems assms(2) by linarith
    have next_ok: "0 \<le> i + ?B" using less.prems assms(2) by simp
    have dd: "nat (i + ?B) = nat ?B + nat i"
      using less.prems assms(2) by (simp add: nat_add_distrib)
    have cnt: "length ?b + (length items - nat (i + ?B)) = length items - nat i"
      using True less.prems assms(2) by (simp add: min_def nat_add_distrib) 
    have "process_batches P c items i r = process_batches P c items (i + ?B) ?r"
      using True by (subst process_batches.simps) (simp add: process_batch_dry[OF assms(1) less.prems assms(2)])
    also have "\<dots> = Some (Inr (?r\<lparr>trace := trace ?r
                          @ map LogDryRun (spec_chunks (nat ?B) (drop (nat (i + ?B)) items)),
                        deletedCount := deletedCount ?r + (length items - nat (i + ?B))\<rparr>))"
      by (rule less.hyps[OF smaller next_ok])
    also have "\<dots> = Some (Inr (r\<lparr>trace := trace r
                          @ map LogDryRun (spec_chunks (nat ?B) (drop (nat i) items)),
                        deletedCount := deletedCount r + (length items - nat i)\<rparr>))"
      using assms(2) ne cnt by (simp add: spec_chunks_step[of "nat ?B" "drop (nat i) items"] dd add.assoc)
    finally show ?thesis .
  qed
qed

lemma batch_number_multiple: "1 \<le> B \<Longrightarrow> batch_number (int k * B) B = show_nat (Suc k)"
  by (simp add: batch_number_def Let_def nat_add_distrib)

lemma process_batch_live:
  assumes "\<not> dryRun P" "1 \<le> batchSize P"
    and "transaction c (store r) (take (nat (batchSize P)) (drop (k * nat (batchSize P)) items)) = None"
  shows "\<exists>r'. process_batch P c items (int k * batchSize P) r = Inr r'
           \<and> trace r' = trace r @ [Commit (take (nat (batchSize P)) (drop (k * nat (batchSize P)) items))]
           \<and> store r' = snd (commit c (store r) (take (nat (batchSize P)) (drop (k * nat (batchSize P)) items)))
           \<and> deletedCount r' = deletedCount r
                + (case fst (commit c (store r) (take (nat (batchSize P)) (drop (k * nat (batchSize P)) items))) of
                     None \<Rightarrow> length (take (nat (batchSize P)) (drop (k * nat (batchSize P)) items)) | Some e \<Rightarrow> 0)
           \<and> errors r' = errors r
                @ (case fst (commit c (store r) (take (nat (batchSize P)) (drop (k * nat (batchSize P)) items))) of
                     None \<Rightarrow> []
                   | Some e \<Rightarrow> [''Batch '' @ show_nat (Suc k) @ '': '' @ message_or ''Unknown error'' e])"
proof -
  let ?B = "batchSize P"
  let ?b = "take (nat ?B) (drop (k * nat ?B) items)"
  have i0: "0 \<le> int k * ?B" using assms(2) by simp
  have ni: "nat (int k * ?B) = k * nat ?B" using assms(2) by (simp add: nat_mult_distrib)
  have sl: "slice items (int k * ?B) (int k * ?B + ?B) = ?b"
    using slice_take_drop[OF i0 assms(2)] by (simp add: ni)
  obtain out w' where cm: "commit c (store r) ?b = (out, w')" by (cases "commit c (store r) ?b")
  show ?thesis
    using assms(1,3) cm
    by (cases out) (simp_all add: process_batch_def sl Let_def batch_number_multiple[OF assms(2)])
qed

lemma process_batches_live:
  assumes "\<not> dryRun P" "1 \<le> batchSize P" "\<And>w b. transaction c w b = None"
  shows "\<exists>r'. process_batches P c items (int k * batchSize P) r = Some (Inr r')
           \<and> trace r' = trace r @ map Commit (spec_chunks (nat (batchSize P)) (drop (k * nat (batchSize P)) items))
           \<and> store r' = store_after c (store r) (spec_chunks (nat (batchSize P)) (drop (k * nat (batchSize P)) items))
           \<and> deletedCount r' = deletedCount r
                + spec_deleted (spec_chunks (nat (batchSize P)) (drop (k * nat (batchSize P)) items))
                    (commit_outcomes c (store r) (spec_chunks (nat (batchSize P)) (drop (k * nat (batchSize P)) items)))
           \<and> errors r' = errors r
                @ spec_errors (Suc k)
                    (commit_outcomes c (store r) (spec_chunks (nat (batchSize P)) (drop (k * nat (batchSize P)) items)))"
proof (induction "length items - k * nat (batchSize P)" arbitrary: k r rule: less_induct)
  case less
  let ?B = "batchSize P"
  let ?n = "nat ?B"
  let ?rest = "drop (k * ?n) items"
  have npos: "0 < ?n" using assms(2) by simp
  have ik: "int k * ?B = int (k * ?n)" using assms(2) by simp
  show ?case
  proof (cases "int k * ?B < int (length items)")
    case False
    then have "length items \<le> k * ?n" unfolding ik by linarith
    then have "?rest = []" by simp
    then show ?thesis using False
      by (subst process_batches.simps) (simp add: spec_chunks_Nil)
  next
    case True
    then have lt: "k * ?n < length items" unfolding ik by linarith
    then have ne: "?rest \<noteq> []" by simp
    let ?b = "take ?n ?rest"
    obtain r1 where r1: "process_batch P c items (int k * ?B) r = Inr r1"
      "trace r1 = trace r @ [Commit ?b]"
      "store r1 = snd (commit c (store r) ?b)"
      "deletedCount r1 = deletedCount r + (case fst (commit c (store r) ?b) of None \<Rightarrow> length ?b | Some e \<Rightarrow> 0)"
      "errors r1 = errors r @ (case fst (commit c (store r) ?b) of None \<Rightarrow> []
                   | Some e \<Rightarrow> [''Batch '' @ show_nat (Suc k) @ '': '' @ message_or ''Unknown error'' e])"
      using process_batch_live[where r=r and k=k and items=items, OF assms(1,2) assms(3)] by blast
    have smaller: "length items - Suc k * ?n < length items - k * ?n"
      using lt npos by simp
    have nxt: "int k * ?B + ?B = int (Suc k) * ?B" by (simp add: algebra_simps)
    have dd: "drop ?n ?rest = drop (Suc k * ?n) items" by (simp add: add.commute)
    obtain r2 where r2: "process_batches P c items (int (Suc k) * ?B) r1 = Some (Inr r2)"
      "trace r2 = trace r1 @ map Commit (spec_chunks ?n (drop (Suc k * ?n) items))"
      "store r2 = store_after c (store r1) (spec_chunks ?n (drop (Suc k * ?n) items))"
      "deletedCount r2 = deletedCount r1
                + spec_deleted (spec_chunks ?n (drop (Suc k * ?n) items))
                    (commit_outcomes c (store r1) (spec_chunks ?n (drop (Suc k * ?n) items)))"
      "errors r2 = errors r1
                @ spec_errors (Suc (Suc k))
                    (commit_outcomes c (store r1) (spec_chunks ?n (drop (Suc k * ?n) items)))"
      using less.hyps[OF smaller, where r=r1] by blast
    have unfold: "process_batches P c items (int k * ?B) r = Some (Inr r2)"
      using True r1(1) r2(1) by (subst process_batches.simps) (simp add: nxt)
    have ch: "spec_chunks ?n ?rest = ?b # spec_chunks ?n (drop (Suc k * ?n) items)"
      using spec_chunks_step[OF npos ne] dd by simp
    show ?thesis
      apply (rule exI[of _ r2])
      apply (simp only: unfold ch)
      apply (simp add: r1 r2 split: option.splits)
      done
  qed
qed

lemma batches_of_append: "batches_of (tr @ tr') = batches_of tr @ batches_of tr'"
  by (induction tr rule: batches_of.induct) simp_all

lemma batches_of_dry: "batches_of (map LogDryRun bs) = bs"
  by (induction bs) simp_all

lemma batches_of_commit: "batches_of (map Commit bs) = bs"
  by (induction bs) simp_all

lemma callbacks_of_append: "callbacks_of (tr @ tr') = callbacks_of tr @ callbacks_of tr'"
  by (simp add: callbacks_of_def)

lemma callbacks_of_dry: "callbacks_of (map LogDryRun bs) = []"
  by (induction bs) (simp_all add: callbacks_of_def)

lemma callbacks_of_commit: "callbacks_of (map Commit bs) = []"
  by (induction bs) (simp_all add: callbacks_of_def)

lemma commits_of_append: "commits_of (tr @ tr') = commits_of tr @ commits_of tr'"
  by (simp add: commits_of_def)

lemma commits_of_dry: "commits_of (map LogDryRun bs) = []"
  by (induction bs) (simp_all add: commits_of_def)

text \<open>
  The loop ends, and not by an exception, when the batch size is positive and the run is
  a preview or building a transaction never throws.
\<close>

lemma process_batches_total:
  assumes "1 \<le> batchSize P" "dryRun P \<or> (\<forall>w b. transaction c w b = None)"
  shows "\<exists>r. process_batches P c items 0 (start_run w) = Some (Inr r)
           \<and> trace r = map (if dryRun P then LogDryRun else Commit) (spec_chunks (nat (batchSize P)) items)"
proof (cases "dryRun P")
  case True
  then show ?thesis
    using process_batches_dry[OF True assms(1), of 0 c items "start_run w"]
    by (simp add: start_run_def)
next
  case False
  with assms(2) have tx: "\<And>w b. transaction c w b = None" by blast
  show ?thesis
    using process_batches_live[OF False assms(1) tx, of items 0 "start_run w"] False
    by (auto simp add: start_run_def)
qed

lemma handleDelete_unfold:
  "selectedItems s \<noteq> [] \<Longrightarrow> process_batches P c (selectedItems s) 0 (start_run w) = Some (Inr r) \<Longrightarrow>
   handleDelete P c s w = Some (delete_finished P (s\<lparr>isDeleting := True, message := ''''\<rparr>) r)"
  by (simp add: handleDelete_def start_run_def Let_def)

text \<open>
  With a batch size that is not positive the loop never ends once it is entered (unless
  building a transaction throws), so a handler called with a selection never returns.
\<close>

lemma process_batch_continues:
  assumes "dryRun P \<or> (\<forall>w b. transaction c w b = None)"
  shows "\<exists>r'. process_batch P c items i r = Inr r'"
proof (cases "dryRun P")
  case True
  then show ?thesis by (simp add: process_batch_def Let_def)
next
  case False
  with assms have "transaction c (store r) (slice items i (i + batchSize P)) = None" by blast
  then show ?thesis
    using False
    by (cases "commit c (store r) (slice items i (i + batchSize P))")
       (auto simp add: process_batch_def Let_def split: option.splits)
qed

lemma process_batches_stuck_aux:
  assumes "process_batches P c items i r = Some y"
  shows "\<not> ((dryRun P \<or> (\<forall>w b. transaction c w b = None))
            \<and> batchSize P \<le> 0 \<and> i < int (length items))"
proof -
  let ?stuck = "\<lambda>x (y :: (thrown \<times> 'a run) + 'a run).
                  case x of ((((P, c :: 'a client), items :: string list), i), r :: 'a run) \<Rightarrow>
                    \<not> ((dryRun P \<or> (\<forall>w b. transaction c w b = None))
                       \<and> batchSize P \<le> 0 \<and> i < int (length items))"
  have "?stuck ((((P, c), items), i), r) y"
  proof (rule process_batches.raw_induct [where Pa = ?stuck, OF _ assms])
    fix f :: "props \<Rightarrow> 'a client \<Rightarrow> string list \<Rightarrow> int \<Rightarrow> 'a run
                \<Rightarrow> ((thrown \<times> 'a run) + 'a run) option"
    fix P c items i r y
    assume ih: "\<And>c items i r b y. f c items i r b = Some y \<Longrightarrow> ?stuck ((((c, items), i), r), b) y"
      and step: "(if i < int (length items)
                  then case process_batch P c items i r of Inl x \<Rightarrow> Some (Inl x)
                       | Inr r' \<Rightarrow> f P c items (i + batchSize P) r'
                  else Some (Inr r)) = Some y"
    show "?stuck ((((P, c), items), i), r) y"
    proof (clarify)
      assume d: "dryRun P \<or> (\<forall>w b. transaction c w b = None)"
        and b: "batchSize P \<le> 0" and lt: "i < int (length items)"
      obtain r' where pb: "process_batch P c items i r = Inr r'"
        using process_batch_continues [OF d] by blast
      from step lt pb have "f P c items (i + batchSize P) r' = Some y" by simp
      from ih [OF this] d b lt show False by auto
    qed
  qed
  then show ?thesis by simp
qed

lemma process_batches_stuck:
  assumes "dryRun P \<or> (\<forall>w b. transaction c w b = None)"
    and "batchSize P \<le> 0" and "i < int (length items)"
  shows "process_batches P c items i r = None"
  using process_batches_stuck_aux [of P c items i r] assms
  by (cases "process_batches P c items i r") auto

lemma handleDelete_never_returns:
  assumes "dryRun P \<or> (\<forall>w b. transaction c w b = None)"
    and "batchSize P \<le> 0" and "selectedItems s \<noteq> []"
  shows "handleDelete P c s w = None"
  using process_batches_stuck [OF assms(1,2), of 0 "selectedItems s" "start_run w"] assms(3)
  by (simp add: handleDelete_def Let_def)

lemma commits_of_commit: "commits_of (map Commit bs) = bs"
  by (induction bs) (simp_all add: commits_of_def)

lemma commits_of_callback: "commits_of [] = []" "commits_of [OnComplete d es] = []"
  by (simp_all add: commits_of_def)

lemma callbacks_of_callback:
  "callbacks_of [] = []" "callbacks_of [OnComplete d es] = [OnComplete d es]"
  by (simp_all add: callbacks_of_def)

lemma show_nat_2: "show_nat (Suc (Suc 0)) = ''2''"
  by (simp add: show_nat.simps digit_char_def)

section \<open>The query builder\<close>

lemma join_conditions: "(if length cs > 0 then join sep cs else []) = join sep cs"
  by (cases cs) simp_all

lemma buildQuery_built:
  "\<not> (useCustomQuery s \<and> trim (customGroqQuery s) \<noteq> []) \<Longrightarrow>
   buildQuery P s = ''*['' @ join '' && '' (conditions s) @ projection (maxResults P)"
  by (auto simp add: buildQuery_def join_conditions)

lemma buildQuery_blank_custom_text:
  "useCustomQuery s \<Longrightarrow> trim (customGroqQuery s) = [] \<Longrightarrow>
   buildQuery P s = ''*['' @ join '' && '' (conditions s) @ projection (maxResults P)"
  by (rule buildQuery_built) simp

section \<open>The selection stays within the results\<close>

lemma set_fold_set_add: "set (foldl (\<lambda>s x. set_add x s) acc xs) = set acc \<union> set xs"
  by (induction xs arbitrary: acc) (auto simp add: set_add_def)

lemma set_new_Set: "set (new_Set xs) = set xs"
  by (simp add: new_Set_def set_fold_set_add)

lemma toggle_selected:
  "set (selectedItems (toggleItemSelection ident s)) \<subseteq> insert ident (set (selectedItems s))"
  by (auto simp add: toggleItemSelection_def Let_def set_new_Set set_add_def set_delete_def)

lemma toggle_results: "searchResults (toggleItemSelection ident s) = searchResults s"
  by (simp add: toggleItemSelection_def Let_def)


lemma handleSearch_keeps:
  assumes "selection_within_results s" and "handleSearch P c s w = (s', w', tr)"
  shows "selection_within_results s'"
proof (cases "trim (searchQuery s) = [] \<and> \<not> useCustomQuery s")
  case True
  then show ?thesis using assms by (auto simp add: handleSearch_def selection_within_results_def)
next
  case False
  obtain out w1 where f: "fetch c w (buildQuery P s) = (out, w1)"
    by (cases "fetch c w (buildQuery P s)")
  show ?thesis
  proof (cases out)
    case (Inl e)
    then show ?thesis
      using assms f unfolding handleSearch_def if_not_P [OF False]
      by (auto simp add: Let_def search_failed_def selection_within_results_def)
  next
    case (Inr results)
    then show ?thesis
      using assms f unfolding handleSearch_def if_not_P [OF False]
      by (cases results)
         (auto simp add: Let_def search_resolved_def search_failed_def
            selection_within_results_def new_Set_def)
  qed
qed

lemma handleDelete_keeps:
  assumes "selection_within_results s" and "handleDelete P c s w = Some (s', w', tr)"
  shows "selection_within_results s'"
proof (cases "selectedItems s = []")
  case True
  then show ?thesis using assms by (simp add: handleDelete_def)
next
  case False
  then obtain ended where e: "process_batches P c (selectedItems s) 0 (start_run w) = Some ended"
    and s': "(s', w', tr) = (case ended of
                 Inr r \<Rightarrow> delete_finished P (s\<lparr>isDeleting := True, message := ''''\<rparr>) r
               | Inl (e, r) \<Rightarrow> delete_failed P (s\<lparr>isDeleting := True, message := ''''\<rparr>) r e)"
    using assms(2) by (auto simp add: handleDelete_def Let_def)
  show ?thesis
  proof (cases ended)
    case (Inl x)
    then show ?thesis using s' assms(1)
      by (cases x) (auto simp add: delete_failed_def Let_def selection_within_results_def)
  next
    case (Inr r)
    then show ?thesis using s'
      by (auto simp add: delete_finished_def Let_def selection_within_results_def new_Set_def)
  qed
qed

lemma ui_step_keeps:
  assumes "selection_within_results s" and "ui_step P c a (s, w) = Some (s', w')"
  shows "selection_within_results s'"
proof (cases a)
  case Search
  then show ?thesis
    using assms handleSearch_keeps [OF assms(1), of P c w]
    by (cases "handleSearch P c s w") auto
next
  case (Toggle ident)
  then have "ident \<in> set (map doc_id (searchResults s))" and "s' = toggleItemSelection ident s"
    using assms(2) by (auto split: if_splits)
  then show ?thesis
    using assms(1) toggle_selected [of ident s]
    by (auto simp add: selection_within_results_def toggle_results)
next
  case SelectAll
  then show ?thesis using assms(2)
    by (auto simp add: selectAll_def selection_within_results_def set_new_Set)
next
  case ClearSelection
  then show ?thesis using assms(2)
    by (auto simp add: clearSelection_def selection_within_results_def new_Set_def)
next
  case Delete
  then show ?thesis
    using assms(2) handleDelete_keeps [OF assms(1), of P c w]
    by (cases "handleDelete P c s w") auto
qed (use assms in \<open>auto simp add: selection_within_results_def\<close>)

lemma ui_run_keeps:
  "selection_within_results s \<Longrightarrow> ui_run P c acts (s, w) = Some (s', w') \<Longrightarrow>
   selection_within_results s'"
proof (induction acts arbitrary: s w)
  case Nil
  then show ?case by simp
next
  case (Cons a acts)
  then obtain s1 w1 where step: "ui_step P c a (s, w) = Some (s1, w1)"
    and rest: "ui_run P c acts (s1, w1) = Some (s', w')"
    by (cases "ui_step P c a (s, w)") auto
  show ?case
    by (rule Cons.IH [OF ui_step_keeps [OF Cons.prems(1) step] rest])
qed

section \<open>Claims\<close>

text \<open>
  C1. For every selection of size \<open>N\<close> and every batch size \<open>B \<ge> 1\<close>, a run of
  \<open>handleDelete\<close> that is a preview, or whose transactions can all be built, ends, and the
  batches it handled, in order, are \<open>ceil(N / B)\<close> in number, have at most \<open>B\<close> elements
  each, and concatenate to the selected identifiers in their iteration order.
\<close>

theorem handleDelete_partition:
  assumes "1 \<le> batchSize P" and "dryRun P \<or> (\<forall>w b. transaction c w b = None)"
  shows "\<exists>s' w' tr. handleDelete P c s w = Some (s', w', tr)
           \<and> length (batches_of tr) = ceil_div (length (selectedItems s)) (nat (batchSize P))
           \<and> (\<forall>b \<in> set (batches_of tr). int (length b) \<le> batchSize P)
           \<and> concat (batches_of tr) = selectedItems s"
proof (cases "selectedItems s = []")
  case True
  then show ?thesis using assms(1) by (simp add: handleDelete_def ceil_div_def)
next
  case False
  let ?n = "nat (batchSize P)"
  let ?bs = "spec_chunks ?n (selectedItems s)"
  have npos: "0 < ?n" using assms(1) by simp
  obtain r where r: "process_batches P c (selectedItems s) 0 (start_run w) = Some (Inr r)"
    "trace r = map (if dryRun P then LogDryRun else Commit) ?bs"
    using process_batches_total[OF assms] by blast
  let ?tr = "trace r @ (if onComplete_given P then [OnComplete (deletedCount r) (errors r)] else [])"
  have b: "batches_of ?tr = ?bs"
    by (simp add: r(2) batches_of_append batches_of_dry batches_of_commit)
  have hd: "handleDelete P c s w = Some (fst (delete_finished P (s\<lparr>isDeleting := True, message := ''''\<rparr>) r), store r, ?tr)"
    using handleDelete_unfold[OF False r(1)] by (simp add: delete_finished_def Let_def)
  have sz: "\<forall>b \<in> set ?bs. int (length b) \<le> batchSize P"
  proof
    fix b assume "b \<in> set ?bs"
    then have "length b \<le> ?n" using size_spec_chunks by blast
    then show "int (length b) \<le> batchSize P" using assms(1) by linarith
  qed
  show ?thesis
    using hd b sz length_spec_chunks[OF npos, of "selectedItems s"] concat_spec_chunks[OF npos, of "selectedItems s"]
    by simp
qed

theorem handleDelete_partition_witness:
  "1 \<le> batchSize demo_props \<and> (\<forall>w b. transaction demo_client w b = None)
   \<and> (\<exists>s' w' tr. handleDelete demo_props demo_client demo_state 0 = Some (s', w', tr)
         \<and> length (batches_of tr) = 3
         \<and> (\<forall>b \<in> set (batches_of tr). int (length b) \<le> 2)
         \<and> concat (batches_of tr) = [''a'', ''b'', ''c'', ''d'', ''e''])"
proof -
  have size_ok: "1 \<le> batchSize demo_props"
    by (simp add: demo_props_def)
  have builds: "\<forall>w b. transaction demo_client w b = None"
    by (simp add: demo_client_def)
  have sel: "selectedItems demo_state = [''a'', ''b'', ''c'', ''d'', ''e'']"
    by (simp add: demo_state_def)
  have size: "batchSize demo_props = 2"
    by (simp add: demo_props_def)
  have count: "ceil_div (length [''a'', ''b'', ''c'', ''d'', ''e'']) (nat 2) = 3"
    by (simp add: ceil_div_def)
  show ?thesis
    using handleDelete_partition [OF size_ok disjI2 [OF builds], of demo_state 0] size_ok builds
    unfolding sel size count by blast
qed

text \<open>
  C2. In a live run with a positive batch size in which every transaction can be built, let
  \<open>bs\<close> be the chunks of the selection and \<open>outs\<close> the answers of the store to their commits,
  one after the other. Every chunk is committed, in order, whatever the earlier answers were.
  The deleted total is the sum of the sizes of the chunks whose commit succeeded (a failed
  chunk counts zero), and the error list holds, in order, one message \<open>Batch k: ...\<close> for each
  failed chunk, \<open>k\<close> its ordinal position. With three chunks of which the second fails, the
  total is the size of the first plus the size of the third, and the error list is the one
  message of batch 2.
\<close>

theorem handleDelete_live_accounting:
  assumes "\<not> dryRun P" and "1 \<le> batchSize P" and "selectedItems s \<noteq> []"
    and "\<forall>w b. transaction c w b = None"
    and "bs = spec_chunks (nat (batchSize P)) (selectedItems s)"
    and "outs = commit_outcomes c w bs"
  shows "(\<exists>s' tr. handleDelete P c s w = Some (s', store_after c w bs, tr)
            \<and> commits_of tr = bs
            \<and> callbacks_of tr
                = (if onComplete_given P
                   then [OnComplete (spec_deleted bs outs) (spec_errors 1 outs)] else [])
            \<and> message s'
                = ''Successfully deleted '' @ show_nat (spec_deleted bs outs) @ '' items''
                  @ (if spec_errors 1 outs \<noteq> []
                     then '' ('' @ show_nat (length (spec_errors 1 outs)) @ '' errors)'' else []))
         \<and> (\<forall>c1 c2 c3 e. bs = [c1, c2, c3] \<and> outs = [None, Some e, None] \<longrightarrow>
               spec_deleted bs outs = length c1 + length c3
               \<and> spec_errors 1 outs = [''Batch 2: '' @ message_or ''Unknown error'' e])"
proof (rule conjI)
  have tx: "\<And>w b. transaction c w b = None" using assms(4) by blast
  obtain r where r: "process_batches P c (selectedItems s) 0 (start_run w) = Some (Inr r)"
    "trace r = map Commit bs" "store r = store_after c w bs"
    "deletedCount r = spec_deleted bs outs" "errors r = spec_errors 1 outs"
    using process_batches_live [OF assms(1,2) tx, of "selectedItems s" 0 "start_run w"]
    unfolding assms(5,6) by (auto simp add: start_run_def)
  have hd: "handleDelete P c s w
              = Some (delete_finished P (s\<lparr>isDeleting := True, message := ''''\<rparr>) r)"
    by (rule handleDelete_unfold [OF assms(3) r(1)])
  show "\<exists>s' tr. handleDelete P c s w = Some (s', store_after c w bs, tr)
            \<and> commits_of tr = bs
            \<and> callbacks_of tr
                = (if onComplete_given P
                   then [OnComplete (spec_deleted bs outs) (spec_errors 1 outs)] else [])
            \<and> message s'
                = ''Successfully deleted '' @ show_nat (spec_deleted bs outs) @ '' items''
                  @ (if spec_errors 1 outs \<noteq> []
                     then '' ('' @ show_nat (length (spec_errors 1 outs)) @ '' errors)'' else [])"
    unfolding hd using assms(1)
    by (simp add: delete_finished_def finalMessage_def Let_def r(2-5)
        callbacks_of_append callbacks_of_commit commits_of_append commits_of_commit
        callbacks_of_callback commits_of_callback)
next
  show "\<forall>c1 c2 c3 e. bs = [c1, c2, c3] \<and> outs = [None, Some e, None] \<longrightarrow>
               spec_deleted bs outs = length c1 + length c3
               \<and> spec_errors 1 outs = [''Batch 2: '' @ message_or ''Unknown error'' e]"
    by (auto simp add: show_nat_2)
qed

theorem handleDelete_live_accounting_witness:
  "\<not> dryRun demo_props \<and> 1 \<le> batchSize demo_props \<and> selectedItems demo_state \<noteq> []
   \<and> (\<forall>w b. transaction demo_client w b = None)
   \<and> spec_chunks (nat (batchSize demo_props)) (selectedItems demo_state)
       = [[''a'', ''b''], [''c'', ''d''], [''e'']]
   \<and> commit_outcomes demo_client 0 [[''a'', ''b''], [''c'', ''d''], [''e'']]
       = [None, Some (ErrorObj ''boom''), None]
   \<and> (\<exists>s' tr. handleDelete demo_props demo_client demo_state 0 = Some (s', 3, tr)
         \<and> commits_of tr = [[''a'', ''b''], [''c'', ''d''], [''e'']]
         \<and> callbacks_of tr = [OnComplete 3 [''Batch 2: boom'']]
         \<and> message s' = ''Successfully deleted 3 items (1 errors)'')"
proof -
  let ?bs = "[[''a'', ''b''], [''c'', ''d''], [''e'']]"
  let ?outs = "[None, Some (ErrorObj ''boom''), None]"
  have live: "\<not> dryRun demo_props" and size_ok: "1 \<le> batchSize demo_props"
    and cb: "onComplete_given demo_props"
    by (simp_all add: demo_props_def)
  have chosen: "selectedItems demo_state \<noteq> []"
    by (simp add: demo_state_def)
  have builds: "\<forall>w b. transaction demo_client w b = None"
    by (simp add: demo_client_def)
  have chunks: "spec_chunks (nat (batchSize demo_props)) (selectedItems demo_state) = ?bs"
    by code_simp
  have answers: "commit_outcomes demo_client 0 ?bs = ?outs"
    by (simp add: demo_client_def)
  have after: "store_after demo_client 0 ?bs = 3"
    by (simp add: demo_client_def)
  have deleted: "spec_deleted ?bs ?outs = 3"
    by simp
  have msgs: "spec_errors 1 ?outs = [''Batch 2: boom'']"
    by (simp add: show_nat_2 message_or_def)
  have texts: "show_nat 3 = ''3''" "show_nat (length [''Batch 2: boom'']) = ''1''"
    by (simp_all add: show_nat.simps digit_char_def)
  show ?thesis
    using handleDelete_live_accounting
            [OF live size_ok chosen builds chunks [symmetric] answers [symmetric]]
      live size_ok chosen builds chunks answers cb
    unfolding after deleted msgs texts by simp
qed

text \<open>
  C3, as stated, at the empty selection: a preview with nothing selected returns at the
  size check and reports nothing, neither through the status message nor through the
  completion callback.
\<close>

theorem handleDelete_preview_counterexample:
  "dryRun preview_props \<and> onComplete_given preview_props \<and> 1 \<le> batchSize preview_props
   \<and> length (selectedItems initial_state) = 0
   \<and> handleDelete preview_props demo_client initial_state 0 = Some (initial_state, 0, [])
   \<and> handleDelete preview_props demo_client initial_state 0
       \<noteq> Some (initial_state\<lparr>message := ''DRY RUN: Would delete 0 items''\<rparr>, 0, [OnComplete 0 []])"
  by (simp add: preview_props_def demo_props_def initial_state_def handleDelete_def)

text \<open>
  C3, amended. For every non-empty selection of size \<open>N\<close> and every batch size \<open>B \<ge> 1\<close>, a
  preview run ends, leaves the store as it was and commits no transaction, sets the status
  message to \<open>DRY RUN: Would delete N items\<close>, and its only callback, when the caller has
  supplied \<open>onComplete\<close>, is \<open>onComplete\<close> with \<open>deleted = N\<close> and no errors.
\<close>

theorem handleDelete_preview:
  assumes "dryRun P" and "1 \<le> batchSize P" and "selectedItems s \<noteq> []"
  shows "\<exists>s' tr. handleDelete P c s w = Some (s', w, tr)
           \<and> message s' = ''DRY RUN: Would delete '' @ show_nat (length (selectedItems s)) @ '' items''
           \<and> callbacks_of tr
               = (if onComplete_given P then [OnComplete (length (selectedItems s)) []] else [])
           \<and> commits_of tr = []"
proof -
  let ?r = "(start_run w)\<lparr>trace := map LogDryRun (spec_chunks (nat (batchSize P)) (selectedItems s)),
                          deletedCount := length (selectedItems s)\<rparr>"
  have loop: "process_batches P c (selectedItems s) 0 (start_run w) = Some (Inr ?r)"
    using process_batches_dry [OF assms(1,2), of 0 c "selectedItems s" "start_run w"]
    by (simp add: start_run_def)
  have hd: "handleDelete P c s w
              = Some (delete_finished P (s\<lparr>isDeleting := True, message := ''''\<rparr>) ?r)"
    by (rule handleDelete_unfold [OF assms(3) loop])
  show ?thesis
    unfolding hd using assms(1)
    by (simp add: delete_finished_def finalMessage_def start_run_def Let_def
        callbacks_of_append callbacks_of_dry commits_of_append commits_of_dry
        callbacks_of_def commits_of_def)
qed

theorem handleDelete_preview_witness:
  "dryRun preview_props \<and> 1 \<le> batchSize preview_props \<and> selectedItems demo_state \<noteq> []
   \<and> (\<exists>s' tr. handleDelete preview_props demo_client demo_state 0 = Some (s', 0, tr)
         \<and> message s' = ''DRY RUN: Would delete 5 items''
         \<and> callbacks_of tr = [OnComplete 5 []]
         \<and> commits_of tr = [])"
proof -
  have preview: "dryRun preview_props" and size_ok: "1 \<le> batchSize preview_props"
    and cb: "onComplete_given preview_props"
    by (simp_all add: preview_props_def demo_props_def)
  have sel: "selectedItems demo_state = [''a'', ''b'', ''c'', ''d'', ''e'']"
    by (simp add: demo_state_def)
  have chosen: "selectedItems demo_state \<noteq> []"
    by (simp add: sel)
  have count: "length [''a'', ''b'', ''c'', ''d'', ''e''] = 5"
    by simp
  have five: "show_nat 5 = ''5''"
    by (simp add: show_nat.simps digit_char_def)
  show ?thesis
    using handleDelete_preview [OF preview size_ok chosen, of demo_client 0] preview size_ok chosen cb
    unfolding sel count five by simp
qed

text \<open>
  C4. When the selection is not empty, the batch size is positive and the run is a preview
  or every transaction can be built, the loop ends with some locals \<open>r\<close>, whatever the
  commits answered, and the handler returns. In the state it leaves, the result list is the
  old one without the entries whose \<open>_id\<close> was selected, so that no selected identifier is
  left in it, the selection is empty and the status message is the final summary. The only
  callback of the run is \<open>onComplete\<close> (when the caller has supplied it), called once with
  the deleted count and the error list of \<open>r\<close>.
\<close>

theorem handleDelete_finish:
  assumes "1 \<le> batchSize P" and "selectedItems s \<noteq> []"
    and "dryRun P \<or> (\<forall>w b. transaction c w b = None)"
  shows "\<exists>r s' tr. process_batches P c (selectedItems s) 0 (start_run w) = Some (Inr r)
           \<and> handleDelete P c s w = Some (s', store r, tr)
           \<and> searchResults s'
               = filter (\<lambda>item. doc_id item \<notin> set (selectedItems s)) (searchResults s)
           \<and> (\<forall>ident \<in> set (selectedItems s). ident \<notin> set (map doc_id (searchResults s')))
           \<and> selectedItems s' = []
           \<and> message s' = finalMessage P r
           \<and> callbacks_of tr
               = (if onComplete_given P then [OnComplete (deletedCount r) (errors r)] else [])"
proof -
  obtain r where r: "process_batches P c (selectedItems s) 0 (start_run w) = Some (Inr r)"
    "trace r = map (if dryRun P then LogDryRun else Commit)
                 (spec_chunks (nat (batchSize P)) (selectedItems s))"
    using process_batches_total [OF assms(1,3)] by blast
  have quiet: "callbacks_of (trace r) = []"
    by (simp add: r(2) callbacks_of_dry callbacks_of_commit)
  let ?s' = "s\<lparr>searchResults :=
                   filter (\<lambda>item. doc_id item \<notin> set (selectedItems s)) (searchResults s),
                 selectedItems := [], message := finalMessage P r,
                 isDeleting := False, showConfirmDialog := False\<rparr>"
  let ?tr = "trace r @ (if onComplete_given P then [OnComplete (deletedCount r) (errors r)] else [])"
  have hd: "handleDelete P c s w = Some (?s', store r, ?tr)"
    using handleDelete_unfold [OF assms(2) r(1)]
    by (simp add: delete_finished_def Let_def new_Set_def)
  have calls: "callbacks_of ?tr
                 = (if onComplete_given P then [OnComplete (deletedCount r) (errors r)] else [])"
    by (simp add: callbacks_of_append quiet callbacks_of_callback)
  have pruned: "\<forall>ident \<in> set (selectedItems s). ident \<notin> set (map doc_id (searchResults ?s'))"
    by auto
  show ?thesis
    using r(1) hd calls pruned by (intro exI [of _ r] exI [of _ ?s'] exI [of _ ?tr]) simp
qed

theorem handleDelete_finish_witness:
  "1 \<le> batchSize demo_props \<and> selectedItems demo_state \<noteq> []
   \<and> (\<forall>w b. transaction demo_client w b = None)
   \<and> (\<exists>r s' tr. process_batches demo_props demo_client [''a'', ''b'', ''c'', ''d'', ''e''] 0 (start_run 0)
              = Some (Inr r)
         \<and> handleDelete demo_props demo_client demo_state 0 = Some (s', store r, tr)
         \<and> searchResults s' = [demo_doc ''f'']
         \<and> (\<forall>ident \<in> set [''a'', ''b'', ''c'', ''d'', ''e''].
               ident \<notin> set (map doc_id (searchResults s')))
         \<and> selectedItems s' = []
         \<and> message s' = finalMessage demo_props r
         \<and> callbacks_of tr = [OnComplete (deletedCount r) (errors r)])"
proof -
  have size_ok: "1 \<le> batchSize demo_props" and cb: "onComplete_given demo_props"
    by (simp_all add: demo_props_def)
  have sel: "selectedItems demo_state = [''a'', ''b'', ''c'', ''d'', ''e'']"
    by (simp add: demo_state_def)
  have chosen: "selectedItems demo_state \<noteq> []"
    by (simp add: sel)
  have builds: "\<forall>w b. transaction demo_client w b = None"
    by (simp add: demo_client_def)
  have left: "filter (\<lambda>item. doc_id item \<notin> set [''a'', ''b'', ''c'', ''d'', ''e''])
                (searchResults demo_state) = [demo_doc ''f'']"
    by (simp add: demo_state_def demo_doc_def)
  show ?thesis
    using handleDelete_finish [OF size_ok chosen disjI2 [OF builds], of 0] size_ok chosen builds
    unfolding sel left by (simp add: cb)
qed

text \<open>
  C5, as stated, for an identifier that is not in the result list: \<open>toggleItemSelection\<close>
  does not look at the result list and adds it to the selection.
\<close>

theorem toggle_unlisted_counterexample:
  "''ghost'' \<notin> set (map doc_id (searchResults initial_state))
   \<and> selectedItems (toggleItemSelection ''ghost'' initial_state) = [''ghost'']
   \<and> searchResults (toggleItemSelection ''ghost'' initial_state) = []
   \<and> \<not> set (selectedItems (toggleItemSelection ''ghost'' initial_state))
        \<subseteq> set (map doc_id (searchResults (toggleItemSelection ''ghost'' initial_state)))"
  by (simp add: toggleItemSelection_def initial_state_def new_Set_def set_add_def)

text \<open>
  C5, amended. \<open>toggleItemSelection\<close> flips the membership of the identifier it is given;
  the form calls it with identifiers of rendered results only, and in every state that the
  handlers reach from the initial state under such calls, the selection is a subset of the
  identifiers of the current result list.
\<close>

theorem selection_within_results_reachable:
  assumes "ui_run P c acts (initial_state, w) = Some (s', w')"
  shows "set (selectedItems s') \<subseteq> set (map doc_id (searchResults s'))"
proof -
  have "selection_within_results initial_state"
    by (simp add: selection_within_results_def initial_state_def)
  from ui_run_keeps [OF this assms] show ?thesis
    by (simp add: selection_within_results_def)
qed

theorem selection_within_results_reachable_witness:
  "ui_run demo_props demo_client demo_session (initial_state, 0) = Some (demo_found, 0)
   \<and> set (selectedItems demo_found) \<subseteq> set (map doc_id (searchResults demo_found))"
proof -
  have run: "ui_run demo_props demo_client demo_session (initial_state, 0) = Some (demo_found, 0)"
    by code_simp
  have within: "set (selectedItems demo_found) \<subseteq> set (map doc_id (searchResults demo_found))"
    by (rule selection_within_results_reachable [OF run])
  from run within show ?thesis
    by (rule conjI)
qed

text \<open>
  C6. When the search term is blank (\<open>trim\<close> leaves nothing of it: it is empty or white
  space only, the no-break space included) and custom-query mode is off, \<open>handleSearch\<close>
  makes no call at all (no fetch in particular), and changes nothing of the state but the
  status message: the result list and the selection stay as they were.
\<close>

theorem handleSearch_blank_rejected:
  assumes "trim (searchQuery s) = []" and "\<not> useCustomQuery s"
  shows "handleSearch P c s w =
           (s\<lparr>message := ''Please enter a search term or use custom query''\<rparr>, w, [])"
  using assms by (simp add: handleSearch_def)

theorem handleSearch_blank_rejected_witness:
  "trim (searchQuery blank_state) = [] \<and> \<not> useCustomQuery blank_state
   \<and> searchQuery blank_state = [CHR 0x20, CHR 0xA0, CHR 0x09]
   \<and> handleSearch demo_props demo_client blank_state 0 =
       (blank_state\<lparr>message := ''Please enter a search term or use custom query''\<rparr>, 0, [])"
proof -
  have typed: "searchQuery blank_state = [CHR 0x20, CHR 0xA0, CHR 0x09]"
    by (simp add: blank_state_def)
  have blank: "trim (searchQuery blank_state) = []"
    by (simp add: typed trim_def js_space_def)
  have off: "\<not> useCustomQuery blank_state"
    by (simp add: blank_state_def demo_state_def initial_state_def)
  from handleSearch_blank_rejected [OF blank off, of demo_props demo_client 0] blank off typed
  show ?thesis by simp
qed

text \<open>
  C7, as stated, on the custom-query path: the custom text is returned as it is, and does
  not end with the cap and the projection.
\<close>

theorem buildQuery_custom_counterexample:
  \<open>useCustomQuery custom_state \<and> trim (customGroqQuery custom_state) \<noteq> []
   \<and> buildQuery demo_props custom_state = ''*[_type == "post"]''
   \<and> \<not> suffix ''][0...100] {\<newline>      _id,\<newline>      _type,\<newline>      title,\<newline>      name,\<newline>      slug,\<newline>      _createdAt,\<newline>      _updatedAt\<newline>    }''
         (buildQuery demo_props custom_state)\<close>
  by (simp add: custom_state_def buildQuery_def trim_def js_space_def suffix_def)

text \<open>
  C7, amended. When the custom-query flag is set and the custom text is not blank,
  \<open>buildQuery\<close> returns the custom text verbatim. For every other combination of inputs the
  query is \<open>*[\<close>, the conditions joined by \<open>&&\<close>, the cap \<open>][0...\<close> with the decimal digits of
  \<open>maxResults\<close> and the projection of \<open>_id\<close>, \<open>_type\<close>, \<open>title\<close>, \<open>name\<close>, \<open>slug\<close>, \<open>_createdAt\<close>
  and \<open>_updatedAt\<close>, written as in the source.
\<close>

theorem buildQuery_capped:
  \<open>(useCustomQuery s \<and> trim (customGroqQuery s) \<noteq> [] \<longrightarrow> buildQuery P s = customGroqQuery s)
   \<and> (\<not> (useCustomQuery s \<and> trim (customGroqQuery s) \<noteq> []) \<longrightarrow>
        buildQuery P s
          = ''*['' @ join '' && '' (conditions s)
            @ ''][0...'' @ show_nat (unat (maxResults P))
            @ ''] {\<newline>      _id,\<newline>      _type,\<newline>      title,\<newline>      name,\<newline>      slug,\<newline>      _createdAt,\<newline>      _updatedAt\<newline>    }''
        \<and> decimal_value (show_nat (unat (maxResults P))) = unat (maxResults P))\<close>
proof (cases "useCustomQuery s \<and> trim (customGroqQuery s) \<noteq> []")
  case True
  then show ?thesis by (simp add: buildQuery_def)
next
  case False
  have "buildQuery P s = ''*['' @ join '' && '' (conditions s) @ projection (maxResults P)"
    by (rule buildQuery_built [OF False])
  then show ?thesis
    using False by (auto simp add: projection_def decimal_value_show_nat)
qed

theorem buildQuery_capped_witness:
  \<open>(useCustomQuery custom_state \<and> trim (customGroqQuery custom_state) \<noteq> []
    \<and> buildQuery demo_props custom_state = ''*[_type == "post"]'')
   \<and> (\<not> (useCustomQuery demo_state \<and> trim (customGroqQuery demo_state) \<noteq> [])
      \<and> buildQuery demo_props demo_state
          = ''*[(\<newline>        lower(title) match "*acme*" ||\<newline>        lower(name) match "*acme*" ||\<newline>        lower(slug.current) match "*acme*" ||\<newline>        lower(string::split(string(_id), ".")[1]) match "*acme*"\<newline>      )][0...100] {\<newline>      _id,\<newline>      _type,\<newline>      title,\<newline>      name,\<newline>      slug,\<newline>      _createdAt,\<newline>      _updatedAt\<newline>    }''
      \<and> decimal_value ''100'' = unat (maxResults demo_props))
   \<and> (\<not> (useCustomQuery blank_custom_state \<and> trim (customGroqQuery blank_custom_state) \<noteq> [])
      \<and> useCustomQuery blank_custom_state
      \<and> buildQuery demo_props blank_custom_state
          = ''*[(\<newline>        lower(title) match "*acme*" ||\<newline>        lower(name) match "*acme*" ||\<newline>        lower(slug.current) match "*acme*" ||\<newline>        lower(string::split(string(_id), ".")[1]) match "*acme*"\<newline>      )][0...100] {\<newline>      _id,\<newline>      _type,\<newline>      title,\<newline>      name,\<newline>      slug,\<newline>      _createdAt,\<newline>      _updatedAt\<newline>    }'')\<close>
proof -
  have custom: "useCustomQuery custom_state \<and> trim (customGroqQuery custom_state) \<noteq> []"
    by (simp add: custom_state_def trim_def js_space_def)
  have written: \<open>customGroqQuery custom_state = ''*[_type == "post"]''\<close>
    by (simp add: custom_state_def)
  have builder: "\<not> (useCustomQuery demo_state \<and> trim (customGroqQuery demo_state) \<noteq> [])"
    by (simp add: demo_state_def initial_state_def)
  have blank: "\<not> (useCustomQuery blank_custom_state \<and> trim (customGroqQuery blank_custom_state) \<noteq> [])"
    and switched: "useCustomQuery blank_custom_state"
    by (simp_all add: blank_custom_state_def trim_def js_space_def)
  have cap: "show_nat (unat (maxResults demo_props)) = ''100''"
    by code_simp
  have filter: \<open>join '' && '' (conditions demo_state)
      = ''(\<newline>        lower(title) match "*acme*" ||\<newline>        lower(name) match "*acme*" ||\<newline>        lower(slug.current) match "*acme*" ||\<newline>        lower(string::split(string(_id), ".")[1]) match "*acme*"\<newline>      )''\<close>
    by code_simp
  have same: "conditions blank_custom_state = conditions demo_state"
    by (simp add: conditions_def blank_custom_state_def)
  show ?thesis
    using buildQuery_capped [of custom_state demo_props] buildQuery_capped [of demo_state demo_props]
      buildQuery_capped [of blank_custom_state demo_props] custom builder blank switched
    unfolding written same cap filter by simp
qed

text \<open>
  C8, as stated, for a term with a double quote: the term is put into the text condition
  without escaping, so with the type \<open>post\<close> selected and the known types \<open>post\<close> and \<open>page\<close>,
  this term makes the filter contain the single-type condition and, inside the text
  condition, the condition on all known types as well.
\<close>

theorem buildQuery_injected_counterexample:
  \<open>trim (searchQuery inject_state) \<noteq> []
   \<and> \<not> (useCustomQuery inject_state \<and> trim (customGroqQuery inject_state) \<noteq> [])
   \<and> selectedType inject_state = ''post''
   \<and> type_eq_condition (selectedType inject_state) = ''_type == "post"''
   \<and> type_in_condition (availableTypes inject_state) = ''_type in ["post", "page"]''
   \<and> sublist ''_type == "post"'' (buildQuery demo_props inject_state)
   \<and> sublist ''_type in ["post", "page"]'' (buildQuery demo_props inject_state)\<close>
  by code_simp

text \<open>
  C8, amended. For a search term that is not blank, when the custom-query path is not
  taken, let \<open>t\<close> be the trimmed, lower-cased term and \<open>text\<close> the four alternatives
  \<open>lower(field) match "*t*"\<close> in brackets. The filter is \<open>_type == "T" && text\<close> when a type \<open>T\<close>
  other than \<open>all\<close> is selected, \<open>_type in ["k1", "k2"] && text\<close> over the known types when
  the type is \<open>all\<close> and there are known types, and \<open>text\<close> alone when the type is \<open>all\<close> and
  there are none: the builder puts in at most one type condition of its own, and types
  and term go into the text as they are.
\<close>

theorem buildQuery_filter:
  assumes "trim (searchQuery s) \<noteq> []"
    and "\<not> (useCustomQuery s \<and> trim (customGroqQuery s) \<noteq> [])"
    and "t = toLowerCase (trim (searchQuery s))"
    and \<open>text = ''(\<newline>        lower(title) match "*'' @ t @ ''*" ||\<newline>        lower(name) match "*'' @ t
                 @ ''*" ||\<newline>        lower(slug.current) match "*'' @ t
                 @ ''*" ||\<newline>        lower(string::split(string(_id), ".")[1]) match "*'' @ t
                 @ ''*"\<newline>      )''\<close>
  shows \<open>buildQuery P s =
           ''*[''
           @ (if selectedType s \<noteq> ''all''
              then ''_type == "'' @ selectedType s @ ''" && '' @ text
              else if availableTypes s \<noteq> []
              then ''_type in ['' @ join '', '' (map (\<lambda>known. ''"'' @ known @ ''"'') (availableTypes s))
                   @ ''] && '' @ text
              else text)
           @ projection (maxResults P)\<close>
  using assms(1) buildQuery_built [OF assms(2), of P] unfolding assms(3,4)
  by (simp add: conditions_def type_eq_condition_def type_in_condition_def text_condition_def)

theorem buildQuery_filter_witness:
  \<open>(trim (searchQuery post_state) \<noteq> []
    \<and> \<not> (useCustomQuery post_state \<and> trim (customGroqQuery post_state) \<noteq> [])
    \<and> toLowerCase (trim (searchQuery post_state)) = ''acme''
    \<and> selectedType post_state = ''post''
    \<and> buildQuery demo_props post_state =
        ''*[_type == "post" && (\<newline>        lower(title) match "*acme*" ||\<newline>        lower(name) match "*acme*" ||\<newline>        lower(slug.current) match "*acme*" ||\<newline>        lower(string::split(string(_id), ".")[1]) match "*acme*"\<newline>      )''
        @ projection 100)
   \<and> (trim (searchQuery known_state) \<noteq> []
      \<and> \<not> (useCustomQuery known_state \<and> trim (customGroqQuery known_state) \<noteq> [])
      \<and> selectedType known_state = ''all'' \<and> availableTypes known_state = [''post'', ''page'']
      \<and> buildQuery demo_props known_state =
          ''*[_type in ["post", "page"] && (\<newline>        lower(title) match "*acme*" ||\<newline>        lower(name) match "*acme*" ||\<newline>        lower(slug.current) match "*acme*" ||\<newline>        lower(string::split(string(_id), ".")[1]) match "*acme*"\<newline>      )''
          @ projection 100)
   \<and> (trim (searchQuery demo_state) \<noteq> []
      \<and> \<not> (useCustomQuery demo_state \<and> trim (customGroqQuery demo_state) \<noteq> [])
      \<and> selectedType demo_state = ''all'' \<and> availableTypes demo_state = []
      \<and> buildQuery demo_props demo_state =
          ''*[(\<newline>        lower(title) match "*acme*" ||\<newline>        lower(name) match "*acme*" ||\<newline>        lower(slug.current) match "*acme*" ||\<newline>        lower(string::split(string(_id), ".")[1]) match "*acme*"\<newline>      )''
          @ projection 100)
   \<and> (trim (searchQuery accent_state) \<noteq> []
      \<and> \<not> (useCustomQuery accent_state \<and> trim (customGroqQuery accent_state) \<noteq> [])
      \<and> toLowerCase (trim (searchQuery accent_state)) = CHR 0xE9 # ''cole''
      \<and> selectedType accent_state = ''all'' \<and> availableTypes accent_state = []
      \<and> buildQuery demo_props accent_state =
          ''*[(\<newline>        lower(title) match "*'' @ CHR 0xE9 # ''cole*" ||\<newline>        lower(name) match "*'' @ CHR 0xE9 # ''cole*" ||\<newline>        lower(slug.current) match "*'' @ CHR 0xE9 # ''cole*" ||\<newline>        lower(string::split(string(_id), ".")[1]) match "*'' @ CHR 0xE9 # ''cole*"\<newline>      )''
          @ projection 100)\<close>
proof -
  have accent: "searchQuery accent_state = CHR 0xA0 # CHR 0xC9 # ''COLE ''"
    by (simp add: accent_state_def)
  have accent_trimmed: "trim (CHR 0xA0 # CHR 0xC9 # ''COLE '') = CHR 0xC9 # ''COLE''"
    by (simp add: trim_def js_space_def)
  have accent_lowered: "toLowerCase (CHR 0xC9 # ''COLE'') = CHR 0xE9 # ''cole''"
    by code_simp
  have accent_builder:
    "\<not> (useCustomQuery accent_state \<and> trim (customGroqQuery accent_state) \<noteq> [])"
    by (simp add: accent_state_def demo_state_def initial_state_def)
  have accent_chosen: "selectedType accent_state = ''all''" "availableTypes accent_state = []"
    by (simp_all add: accent_state_def demo_state_def initial_state_def)
  have typed: "searchQuery post_state = ''  Acme ''" "searchQuery known_state = ''  Acme ''"
    "searchQuery demo_state = ''  Acme ''"
    by (simp_all add: post_state_def known_state_def demo_state_def)
  have lowered: "toLowerCase (trim ''  Acme '') = ''acme''"
    by code_simp
  have nonblank: "trim ''  Acme '' \<noteq> []"
    by (simp add: trim_def js_space_def)
  have builder:
    "\<not> (useCustomQuery post_state \<and> trim (customGroqQuery post_state) \<noteq> [])"
    "\<not> (useCustomQuery known_state \<and> trim (customGroqQuery known_state) \<noteq> [])"
    "\<not> (useCustomQuery demo_state \<and> trim (customGroqQuery demo_state) \<noteq> [])"
    by (simp_all add: post_state_def known_state_def demo_state_def initial_state_def)
  have chosen: "selectedType post_state = ''post''" "selectedType known_state = ''all''"
    "selectedType demo_state = ''all''"
    "availableTypes known_state = [''post'', ''page'']" "availableTypes demo_state = []"
    by (simp_all add: post_state_def known_state_def demo_state_def initial_state_def)
  have cap: "maxResults demo_props = 100"
    by (simp add: demo_props_def)
  have a: \<open>buildQuery demo_props post_state =
        ''*[_type == "post" && (\<newline>        lower(title) match "*acme*" ||\<newline>        lower(name) match "*acme*" ||\<newline>        lower(slug.current) match "*acme*" ||\<newline>        lower(string::split(string(_id), ".")[1]) match "*acme*"\<newline>      )''
        @ projection 100\<close>
    using buildQuery_filter [where s = post_state and P = demo_props, OF _ builder(1) refl refl]
    by (simp add: typed lowered nonblank chosen cap)
  have b: \<open>buildQuery demo_props known_state =
          ''*[_type in ["post", "page"] && (\<newline>        lower(title) match "*acme*" ||\<newline>        lower(name) match "*acme*" ||\<newline>        lower(slug.current) match "*acme*" ||\<newline>        lower(string::split(string(_id), ".")[1]) match "*acme*"\<newline>      )''
          @ projection 100\<close>
    using buildQuery_filter [where s = known_state and P = demo_props, OF _ builder(2) refl refl]
    by (simp add: typed lowered nonblank chosen cap)
  have c: \<open>buildQuery demo_props demo_state =
          ''*[(\<newline>        lower(title) match "*acme*" ||\<newline>        lower(name) match "*acme*" ||\<newline>        lower(slug.current) match "*acme*" ||\<newline>        lower(string::split(string(_id), ".")[1]) match "*acme*"\<newline>      )''
          @ projection 100\<close>
    using buildQuery_filter [where s = demo_state and P = demo_props, OF _ builder(3) refl refl]
    by (simp add: typed lowered nonblank chosen cap)
  have d: \<open>buildQuery demo_props accent_state =
          ''*[(\<newline>        lower(title) match "*'' @ CHR 0xE9 # ''cole*" ||\<newline>        lower(name) match "*'' @ CHR 0xE9 # ''cole*" ||\<newline>        lower(slug.current) match "*'' @ CHR 0xE9 # ''cole*" ||\<newline>        lower(string::split(string(_id), ".")[1]) match "*'' @ CHR 0xE9 # ''cole*"\<newline>      )''
          @ projection 100\<close>
    using buildQuery_filter [where s = accent_state and P = demo_props, OF _ accent_builder refl refl]
    by (simp add: accent accent_trimmed accent_lowered accent_chosen cap)
  show ?thesis
    using a b c d builder accent_builder
    by (simp add: typed lowered nonblank chosen accent accent_trimmed accent_lowered accent_chosen)
qed

text \<open>
  C9. For a search that passes the gate: when \<open>client.fetch\<close> rejects with \<open>e\<close>, the error
  is logged, the status message is \<open>Search error:\<close> with its message, \<open>onError\<close> gets that
  message when the caller has supplied it, and the state is otherwise the old one, result
  list and selection included; when \<open>client.fetch\<close> resolves, the result list is replaced
  by the array received (by the empty list when it is not an array) and the selection is
  emptied.
\<close>

theorem handleSearch_outcomes:
  assumes "\<not> (trim (searchQuery s) = [] \<and> \<not> useCustomQuery s)"
  shows "(fetch c w (buildQuery P s) = (Inl e, w') \<longrightarrow>
            handleSearch P c s w =
              (s\<lparr>isSearching := False,
                 message := ''Search error: '' @ message_or ''Search failed'' e\<rparr>,
               w',
               [LogQuery (buildQuery P s), Fetch (buildQuery P s), LogSearchError e]
               @ (if onError_given P then [OnError (message_or ''Search failed'' e)] else [])))
       \<and> (fetch c w (buildQuery P s) = (Inr results, w') \<longrightarrow>
            searchResults (fst (handleSearch P c s w))
              = (case results of JsArray docs \<Rightarrow> docs | _ \<Rightarrow> [])
            \<and> selectedItems (fst (handleSearch P c s w)) = [])"
proof (intro conjI impI)
  assume "fetch c w (buildQuery P s) = (Inl e, w')"
  then show "handleSearch P c s w =
              (s\<lparr>isSearching := False,
                 message := ''Search error: '' @ message_or ''Search failed'' e\<rparr>,
               w',
               [LogQuery (buildQuery P s), Fetch (buildQuery P s), LogSearchError e]
               @ (if onError_given P then [OnError (message_or ''Search failed'' e)] else []))"
    unfolding handleSearch_def if_not_P [OF assms] by (simp add: search_failed_def Let_def)
next
  assume ok: "fetch c w (buildQuery P s) = (Inr results, w')"
  then have hs: "handleSearch P c s w =
      search_resolved P (s\<lparr>isSearching := True, message := ''''\<rparr>) w'
        [LogQuery (buildQuery P s), Fetch (buildQuery P s)] results"
    unfolding handleSearch_def if_not_P [OF assms] by (simp add: Let_def)
  show "searchResults (fst (handleSearch P c s w)) = (case results of JsArray docs \<Rightarrow> docs | _ \<Rightarrow> [])"
    unfolding hs by (cases results) (simp_all add: search_resolved_def search_failed_def Let_def)
  show "selectedItems (fst (handleSearch P c s w)) = []"
    unfolding hs by (cases results) (simp_all add: search_resolved_def search_failed_def Let_def new_Set_def)
qed

theorem handleSearch_outcomes_witness:
  "\<not> (trim (searchQuery demo_state) = [] \<and> \<not> useCustomQuery demo_state)
   \<and> fetch offline_client 0 (buildQuery demo_props demo_state) = (Inl (ErrorObj ''network down''), 0)
   \<and> handleSearch demo_props offline_client demo_state 0 =
        (demo_state\<lparr>isSearching := False, message := ''Search error: network down''\<rparr>,
         0,
         [LogQuery (buildQuery demo_props demo_state), Fetch (buildQuery demo_props demo_state),
          LogSearchError (ErrorObj ''network down''), OnError ''network down''])
   \<and> fetch demo_client 0 (buildQuery demo_props demo_state)
        = (Inr (JsArray [demo_doc ''a'', demo_doc ''b'']), 0)
   \<and> searchResults (fst (handleSearch demo_props demo_client demo_state 0))
        = [demo_doc ''a'', demo_doc ''b'']
   \<and> selectedItems (fst (handleSearch demo_props demo_client demo_state 0)) = []"
proof -
  have gate: "\<not> (trim (searchQuery demo_state) = [] \<and> \<not> useCustomQuery demo_state)"
    by (simp add: demo_state_def trim_def js_space_def)
  have rejected:
    "fetch offline_client 0 (buildQuery demo_props demo_state) = (Inl (ErrorObj ''network down''), 0)"
    by (simp add: offline_client_def)
  have resolved:
    "fetch demo_client 0 (buildQuery demo_props demo_state)
       = (Inr (JsArray [demo_doc ''a'', demo_doc ''b'']), 0)"
    by (simp add: demo_client_def)
  have cb: "onError_given demo_props"
    by (simp add: demo_props_def)
  show ?thesis
    using handleSearch_outcomes [OF gate, of offline_client 0 demo_props "ErrorObj ''network down''" 0]
      handleSearch_outcomes [OF gate, of demo_client 0 demo_props _ 0 "JsArray [demo_doc ''a'', demo_doc ''b'']"]
      gate rejected resolved cb
    by (simp add: message_or_def)
qed

text \<open>
  C10. With an empty selection \<open>handleDelete\<close> returns at once: the state (result list,
  selection, status message and all flags) and the store are unchanged, and nothing is
  called, neither the store nor a callback.
\<close>

theorem handleDelete_empty_selection:
  assumes "selectedItems s = []"
  shows "handleDelete P c s w = Some (s, w, [])"
  using assms by (simp add: handleDelete_def)

theorem handleDelete_empty_selection_witness:
  "selectedItems initial_state = []
   \<and> handleDelete demo_props demo_client initial_state 0 = Some (initial_state, 0, [])"
  using handleDelete_empty_selection [of initial_state demo_props demo_client 0]
  by (simp add: initial_state_def)

end
